theory Spec2Isabelle
  imports Main
begin

section \<open>Values, documents and JavaScript object operations\<close>

text \<open>
  The mongodb package is an external collaborator of \<^verbatim>\<open>mongo-data-access.class.ts\<close>.
  An \<^verbatim>\<open>ObjectId\<close> is represented by its canonical string form, which is what its
  \<^verbatim>\<open>toString()\<close> returns; its constructor is a parameter of the model (a field of the
  driver record below), so nothing is assumed about which inputs it accepts.
\<close>

datatype ObjectId = ObjectId string

fun toString :: "ObjectId \<Rightarrow> string" where
  "toString (ObjectId hex) = hex"

text \<open>
  The values a document field may hold. Numbers are kept as integers: the mapper never
  computes with them. A nested document and an array are held by value: the mapper only
  copies them.
\<close>

datatype val =
    VUndefined
  | VNull
  | VBool bool
  | VNum int
  | VStr string
  | VOid ObjectId
  | VArr "val list"
  | VDoc "(string \<times> val) list"

text \<open>
  A document is the list of the own enumerable properties of a JavaScript object, in
  enumeration order; the keys of an object are pairwise distinct.
\<close>

type_synonym document = "(string \<times> val) list"

text \<open>An argument that the caller may also pass as \<^verbatim>\<open>null\<close> or leave out.\<close>

datatype jsarg = JNull | JUndefined | JObj document

datatype error =
    Error string
  | DriverError string

text \<open>\<^verbatim>\<open>Object.prototype.hasOwnProperty.call(obj, key)\<close>\<close>

definition hasOwnProperty :: "document \<Rightarrow> string \<Rightarrow> bool" where
  "hasOwnProperty obj key = (key \<in> set (map fst obj))"

text \<open>\<^verbatim>\<open>obj[key]\<close>: the value of a missing property is \<^verbatim>\<open>undefined\<close>.\<close>

definition getProp :: "document \<Rightarrow> string \<Rightarrow> val" where
  "getProp obj key = (case map_of obj key of None \<Rightarrow> VUndefined | Some v \<Rightarrow> v)"

text \<open>\<^verbatim>\<open>obj[key] = v\<close>: an existing property keeps its place, a new one goes last.\<close>

fun setProp :: "string \<Rightarrow> val \<Rightarrow> document \<Rightarrow> document" where
  "setProp key v [] = [(key, v)]"
| "setProp key v ((k, w) # obj) =
     (if k = key then (k, v) # obj else (k, w) # setProp key v obj)"

text \<open>\<^verbatim>\<open>delete obj[key]\<close>\<close>

definition deleteProp :: "string \<Rightarrow> document \<Rightarrow> document" where
  "deleteProp key obj = filter (\<lambda>(k, w). k \<noteq> key) obj"

text \<open>\<^verbatim>\<open>v == null\<close> holds of \<^verbatim>\<open>null\<close> and of \<^verbatim>\<open>undefined\<close> only.\<close>

fun isNullish :: "val \<Rightarrow> bool" where
  "isNullish VUndefined = True"
| "isNullish VNull = True"
| "isNullish _ = False"

text \<open>
  \<^verbatim>\<open>Object.assign(target, source)\<close> copies the own properties of the source in order;
  a \<^verbatim>\<open>null\<close> or \<^verbatim>\<open>undefined\<close> source is skipped.
\<close>

fun Object_assign :: "document \<Rightarrow> jsarg \<Rightarrow> document" where
  "Object_assign target (JObj source) = foldl (\<lambda>t (k, v). setProp k v t) target source"
| "Object_assign target _ = target"

text \<open>\<^verbatim>\<open>filter ?? {}\<close>\<close>

fun orEmpty :: "jsarg \<Rightarrow> jsarg" where
  "orEmpty (JObj d) = JObj d"
| "orEmpty _ = JObj []"

section \<open>Configuration\<close>

text \<open>
  An entry of \<^verbatim>\<open>idFields\<close> is a string or a \<^verbatim>\<open>RegExp\<close>; a regular expression is
  represented by the predicate \<^verbatim>\<open>key.match(re)\<close> it decides.
\<close>

datatype fieldSelector = Exact string | RegExp "string \<Rightarrow> bool"

record DataAccessOptions =
  fieldsProps :: "(string \<times> string) list option"
  idFields :: "fieldSelector list option"

record MongoDataAccess =
  collectionName :: string
  fieldsPropsMap :: "(string \<times> string) list"
  this_idFields :: "fieldSelector list"

text \<open>\<^verbatim>\<open>new Map(entries)\<close>: a later entry of a key replaces the value and keeps the place.\<close>

fun Map_set :: "string \<Rightarrow> string \<Rightarrow> (string \<times> string) list \<Rightarrow> (string \<times> string) list" where
  "Map_set key v [] = [(key, v)]"
| "Map_set key v ((k, w) # m) =
     (if k = key then (k, v) # m else (k, w) # Map_set key v m)"

definition new_Map :: "(string \<times> string) list \<Rightarrow> (string \<times> string) list" where
  "new_Map entries = foldl (\<lambda>m (k, v). Map_set k v m) [] entries"

definition constructor :: "string \<Rightarrow> DataAccessOptions option \<Rightarrow> MongoDataAccess" where
  "constructor name options =
     (let fp = (case options of None \<Rightarrow> None | Some opts \<Rightarrow> fieldsProps opts);
          ids = (case options of None \<Rightarrow> None | Some opts \<Rightarrow> idFields opts)
      in \<lparr> collectionName = name,
           fieldsPropsMap = new_Map (case fp of None \<Rightarrow> [] | Some entries \<Rightarrow> entries),
           this_idFields = (case ids of None \<Rightarrow> [] | Some sels \<Rightarrow> sels) \<rparr>)"

section \<open>The field and identifier mapper\<close>

text \<open>
  The loop of \<^verbatim>\<open>mapDataToDocument\<close> over the entries \<^verbatim>\<open>[field, prop]\<close> of the rename
  table: it reads \<^verbatim>\<open>dataObject\<close> and writes \<^verbatim>\<open>document\<close>.
\<close>

definition renameStep :: "document \<Rightarrow> document \<Rightarrow> string \<times> string \<Rightarrow> document" where
  "renameStep dataObject document entry =
     (case entry of (field, prop) \<Rightarrow>
        if hasOwnProperty dataObject prop
        then (let v = getProp dataObject prop;
                  document = setProp field v document
              in deleteProp prop document)
        else document)"

definition renameProps :: "MongoDataAccess \<Rightarrow> jsarg \<Rightarrow> document" where
  "renameProps this data =
     (let dataObject = Object_assign [] data;
          document = Object_assign [] (JObj dataObject)
      in foldl (renameStep dataObject) document (fieldsPropsMap this))"

fun mapDataToDocument :: "MongoDataAccess \<Rightarrow> jsarg \<Rightarrow> document" where
  "mapDataToDocument this JNull = []"
| "mapDataToDocument this data =
     (let document = renameProps this data;
          v_id = getProp document ''_id''
      in if isNullish v_id then deleteProp ''_id'' document else document)"

definition mapDocumentToData :: "MongoDataAccess \<Rightarrow> document \<Rightarrow> document" where
  "mapDocumentToData this document =
     (let documentObject = Object_assign [] (JObj document)
      in foldl (\<lambda>data (fieldName, v).
                  let prop = (case map_of (fieldsPropsMap this) fieldName of
                                None \<Rightarrow> fieldName | Some p \<Rightarrow> p)
                  in setProp prop v data)
           [] documentObject)"

text \<open>
  \<^verbatim>\<open>parseValue\<close>: an \<^verbatim>\<open>ObjectId\<close> becomes its string; anything else is handed to
  the constructor \<^verbatim>\<open>new ObjectId(value)\<close>, which may throw.
\<close>

fun parseValue :: "(val \<Rightarrow> error + ObjectId) \<Rightarrow> val \<Rightarrow> error + val" where
  "parseValue new_ObjectId (VOid oid) = Inr (VStr (toString oid))"
| "parseValue new_ObjectId v =
     (case new_ObjectId v of Inl e \<Rightarrow> Inl e | Inr oid \<Rightarrow> Inr (VOid oid))"

text \<open>\<^verbatim>\<open>value.map((item) => parseValue(item))\<close>: the first item that throws ends the call.\<close>

fun mapParseValue :: "(val \<Rightarrow> error + ObjectId) \<Rightarrow> val list \<Rightarrow> error + val list" where
  "mapParseValue new_ObjectId [] = Inr []"
| "mapParseValue new_ObjectId (item # items) =
     (case parseValue new_ObjectId item of
        Inl e \<Rightarrow> Inl e
      | Inr item' \<Rightarrow>
          (case mapParseValue new_ObjectId items of
             Inl e \<Rightarrow> Inl e
           | Inr items' \<Rightarrow> Inr (item' # items')))"

text \<open>
  The inner loop of \<^verbatim>\<open>parseStringsIDs\<close> over \<^verbatim>\<open>this.idFields\<close>, for one key and
  the value read before the loop.
\<close>

fun forSelectors ::
  "(val \<Rightarrow> error + ObjectId) \<Rightarrow> string \<Rightarrow> val \<Rightarrow> fieldSelector list \<Rightarrow> document
     \<Rightarrow> error + document" where
  "forSelectors new_ObjectId key v [] document = Inr document"
| "forSelectors new_ObjectId key v (RegExp matches # sels) document =
     (if matches key then
        (case v of
           VArr items \<Rightarrow>
             (case mapParseValue new_ObjectId items of
                Inl e \<Rightarrow> Inl e
              | Inr items' \<Rightarrow>
                  forSelectors new_ObjectId key v sels (setProp key (VArr items') document))
         | _ \<Rightarrow>
             (case parseValue new_ObjectId v of
                Inl e \<Rightarrow> Inl e
              | Inr v' \<Rightarrow> forSelectors new_ObjectId key v sels (setProp key v' document)))
      else forSelectors new_ObjectId key v sels document)"
| "forSelectors new_ObjectId key v (Exact name # sels) document =
     (if key = name then
        (case parseValue new_ObjectId v of
           Inl e \<Rightarrow> Inl e
         | Inr v' \<Rightarrow> forSelectors new_ObjectId key v sels (setProp key v' document))
      else forSelectors new_ObjectId key v sels document)"

text \<open>The outer loop \<^verbatim>\<open>for (const key in document)\<close>.\<close>

fun forKeys ::
  "(val \<Rightarrow> error + ObjectId) \<Rightarrow> fieldSelector list \<Rightarrow> string list \<Rightarrow> document
     \<Rightarrow> error + document" where
  "forKeys new_ObjectId sels [] document = Inr document"
| "forKeys new_ObjectId sels (key # keys) document =
     (if hasOwnProperty document key then
        (case forSelectors new_ObjectId key (getProp document key) sels document of
           Inl e \<Rightarrow> Inl e
         | Inr document' \<Rightarrow> forKeys new_ObjectId sels keys document')
      else forKeys new_ObjectId sels keys document)"

definition parseStringsIDs ::
  "MongoDataAccess \<Rightarrow> (val \<Rightarrow> error + ObjectId) \<Rightarrow> document \<Rightarrow> error + document" where
  "parseStringsIDs this new_ObjectId document =
     forKeys new_ObjectId (this_idFields this) (map fst document) document"

section \<open>The store driver\<close>

text \<open>
  The driver is the external collaborator: each of its operations is a response function
  that may fail, and every facade operation returns, beside its result, the list of the
  driver calls it made, in order, with the arguments it sent.
\<close>

record driver =
  countDocuments :: "jsarg \<Rightarrow> error + nat"
  deleteMany :: "jsarg \<Rightarrow> error + nat"
  insertOne :: "document \<Rightarrow> error + val"
  collection_find :: "document \<Rightarrow> val \<Rightarrow> error + document list"
  findOne :: "document \<Rightarrow> val \<Rightarrow> error + document option"
  updateMany :: "document \<Rightarrow> jsarg \<Rightarrow> error + nat"
  listCollections :: "string \<Rightarrow> error + string list"
  collection_drop :: "error + bool"
  new_ObjectId :: "val \<Rightarrow> error + ObjectId"

datatype driver_call =
    CountDocuments jsarg
  | DeleteMany jsarg
  | InsertOne document
  | Find document val
  | FindOne document val
  | UpdateMany document jsarg
  | ListCollections string
  | Drop string

text \<open>
  The template literal \<^verbatim>\<open>`${document.insertedId}`\<close> converts the identifier to a string
  as JavaScript's \<^verbatim>\<open>String(v)\<close> does.
\<close>

function decimal :: "nat \<Rightarrow> string" where
  "decimal n =
     (if n < 10 then [char_of (48 + n)]
      else decimal (n div 10) @ [char_of (48 + n mod 10)])"
  by pat_completeness auto
termination
  by (relation "measure id") auto

fun joinComma :: "string list \<Rightarrow> string" where
  "joinComma [] = []"
| "joinComma [s] = s"
| "joinComma (s # ss) = s @ '','' @ joinComma ss"

fun String_js :: "val \<Rightarrow> string" where
  "String_js VUndefined = ''undefined''"
| "String_js VNull = ''null''"
| "String_js (VBool b) = (if b then ''true'' else ''false'')"
| "String_js (VNum i) = (if i < 0 then ''-'' @ decimal (nat (- i)) else decimal (nat i))"
| "String_js (VStr s) = s"
| "String_js (VOid oid) = toString oid"
| "String_js (VArr items) =
     joinComma (map (\<lambda>item. if isNullish item then [] else String_js item) items)"
| "String_js (VDoc d) = ''[object Object]''"

section \<open>The data access facade\<close>

text \<open>
  The operations of the class, each a single round trip to the driver except
  \<^verbatim>\<open>drop\<close>. \<^verbatim>\<open>createConnection\<close> only opens the connection and logs its events; it
  takes no part in the operations and is left out.
\<close>

definition count :: "MongoDataAccess \<Rightarrow> driver \<Rightarrow> jsarg \<Rightarrow> (error + nat) \<times> driver_call list" where
  "count this drv filter_arg = (countDocuments drv filter_arg, [CountDocuments filter_arg])"

definition delete :: "MongoDataAccess \<Rightarrow> driver \<Rightarrow> jsarg \<Rightarrow> (error + nat) \<times> driver_call list" where
  "delete this drv filter_arg = (deleteMany drv filter_arg, [DeleteMany filter_arg])"

definition drop_op :: "MongoDataAccess \<Rightarrow> driver \<Rightarrow> bool \<Rightarrow> (error + bool) \<times> driver_call list" where
  "drop_op this drv sure =
     (if sure then
        (case listCollections drv (collectionName this) of
           Inl e \<Rightarrow> (Inl e, [ListCollections (collectionName this)])
         | Inr collections \<Rightarrow>
             if length collections > 1 then
               (Inl (Error (''More than 1 collection found with name: '' @ collectionName this)),
                [ListCollections (collectionName this)])
             else if length collections = 1 then
               (case collection_drop drv of
                  Inl e \<Rightarrow>
                    (Inl e, [ListCollections (collectionName this), Drop (collectionName this)])
                | Inr dropped \<Rightarrow>
                    (Inr True, [ListCollections (collectionName this), Drop (collectionName this)]))
             else (Inr True, [ListCollections (collectionName this)]))
      else (Inr False, []))"

definition insert_op :: "MongoDataAccess \<Rightarrow> driver \<Rightarrow> jsarg \<Rightarrow> (error + string) \<times> driver_call list" where
  "insert_op this drv data =
     (let mappedData = mapDataToDocument this data
      in case parseStringsIDs this (new_ObjectId drv) mappedData of
           Inl e \<Rightarrow> (Inl e, [])
         | Inr parsedData \<Rightarrow>
             (case insertOne drv parsedData of
                Inl e \<Rightarrow> (Inl e, [InsertOne parsedData])
              | Inr insertedId \<Rightarrow> (Inr (String_js insertedId), [InsertOne parsedData])))"

text \<open>
  The cursor's \<^verbatim>\<open>map\<close> and \<^verbatim>\<open>toArray\<close>: every document found goes through the
  transform, in order; the first one that throws ends the call.
\<close>

fun cursor_map :: "(document \<Rightarrow> error + document) \<Rightarrow> document list \<Rightarrow> error + document list" where
  "cursor_map f [] = Inr []"
| "cursor_map f (d # ds) =
     (case f d of
        Inl e \<Rightarrow> Inl e
      | Inr d' \<Rightarrow> (case cursor_map f ds of Inl e \<Rightarrow> Inl e | Inr ds' \<Rightarrow> Inr (d' # ds')))"

definition select ::
  "MongoDataAccess \<Rightarrow> driver \<Rightarrow> jsarg \<Rightarrow> val \<Rightarrow> (error + document list) \<times> driver_call list" where
  "select this drv filter_arg options =
     (let parsedFilter = mapDataToDocument this (orEmpty filter_arg)
      in case collection_find drv parsedFilter options of
           Inl e \<Rightarrow> (Inl e, [Find parsedFilter options])
         | Inr documents \<Rightarrow>
             (cursor_map (\<lambda>document.
                  let mappedData = mapDocumentToData this document
                  in parseStringsIDs this (new_ObjectId drv) mappedData) documents,
              [Find parsedFilter options]))"

definition selectOne ::
  "MongoDataAccess \<Rightarrow> driver \<Rightarrow> jsarg \<Rightarrow> val \<Rightarrow> (error + document option) \<times> driver_call list" where
  "selectOne this drv filter_arg options =
     (let parsedFilter = mapDataToDocument this (orEmpty filter_arg)
      in case findOne drv parsedFilter options of
           Inl e \<Rightarrow> (Inl e, [FindOne parsedFilter options])
         | Inr None \<Rightarrow> (Inr None, [FindOne parsedFilter options])
         | Inr (Some document) \<Rightarrow>
             (let mappedData = mapDocumentToData this document
              in case parseStringsIDs this (new_ObjectId drv) mappedData of
                   Inl e \<Rightarrow> (Inl e, [FindOne parsedFilter options])
                 | Inr data \<Rightarrow> (Inr (Some data), [FindOne parsedFilter options])))"

definition update ::
  "MongoDataAccess \<Rightarrow> driver \<Rightarrow> jsarg \<Rightarrow> jsarg \<Rightarrow> (error + nat) \<times> driver_call list" where
  "update this drv filter_arg values =
     (let parsedFilter = mapDataToDocument this (orEmpty filter_arg)
      in (updateMany drv parsedFilter values, [UpdateMany parsedFilter values]))"

section \<open>The object store: \<^verbatim>\<open>mapDataToDocument\<close> on references\<close>

text \<open>
  To speak about mutation and object identity, objects live in a store: a reference is an
  address, the store lists the own properties of every allocated object, and
  \<^verbatim>\<open>{}\<close> allocates the next address. Property values are copied as they are
  (\<^verbatim>\<open>Object.assign\<close> is shallow).
\<close>

type_synonym ref = nat
type_synonym heap = "document list"

datatype jsref = RNull | RUndefined | RObj ref

definition alloc :: "heap \<Rightarrow> document \<Rightarrow> heap \<times> ref" where
  "alloc h obj = (h @ [obj], length h)"

definition deref :: "heap \<Rightarrow> ref \<Rightarrow> document" where
  "deref h r = (if r < length h then h ! r else [])"

fun source_of :: "heap \<Rightarrow> jsref \<Rightarrow> jsarg" where
  "source_of h RNull = JNull"
| "source_of h RUndefined = JUndefined"
| "source_of h (RObj r) = JObj (deref h r)"

definition renameStep_h :: "ref \<Rightarrow> ref \<Rightarrow> heap \<Rightarrow> string \<times> string \<Rightarrow> heap" where
  "renameStep_h dataObject document h entry =
     (case entry of (field, prop) \<Rightarrow>
        if hasOwnProperty (deref h dataObject) prop
        then (let v = getProp (deref h dataObject) prop;
                  h = h[document := setProp field v (deref h document)]
              in h[document := deleteProp prop (deref h document)])
        else h)"

fun mapDataToDocument_h :: "MongoDataAccess \<Rightarrow> heap \<Rightarrow> jsref \<Rightarrow> heap \<times> ref" where
  "mapDataToDocument_h this h RNull = alloc h []"
| "mapDataToDocument_h this h data =
     (let (h, dataObject) = alloc h [];
          h = h[dataObject := Object_assign (deref h dataObject) (source_of h data)];
          (h, document) = alloc h [];
          h = h[document := Object_assign (deref h document) (JObj (deref h dataObject))];
          h = foldl (renameStep_h dataObject document) h (fieldsPropsMap this);
          v_id = getProp (deref h document) ''_id'';
          h = (if isNullish v_id then h[document := deleteProp ''_id'' (deref h document)] else h)
      in (h, document))"

section \<open>Example configurations and drivers\<close>

text \<open>
  The configuration of the scenario: rename table
  \<^verbatim>\<open>{ "_id": "id", "usr_name": "username" }\<close>, identifier fields \<^verbatim>\<open>["_id"]\<close>.
\<close>

definition scenario :: MongoDataAccess where
  "scenario =
     constructor ''users''
       (Some \<lparr> fieldsProps = Some [(''_id'', ''id''), (''usr_name'', ''username'')],
               idFields = Some [Exact ''_id''] \<rparr>)"

text \<open>
  An example of the identifier constructor, used in the examples only: a string of 24
  hexadecimal digits is accepted, every other argument of the examples is refused.
\<close>

definition isHexDigit :: "char \<Rightarrow> bool" where
  "isHexDigit c = (c \<in> set ''0123456789abcdef'')"

fun example_ObjectId :: "val \<Rightarrow> error + ObjectId" where
  "example_ObjectId (VStr s) =
     (if length s = 24 \<and> list_all isHexDigit s then Inr (ObjectId s)
      else Inl (DriverError ''invalid identifier''))"
| "example_ObjectId _ = Inl (DriverError ''invalid identifier'')"

definition idX :: string where
  "idX = ''65a1b2c3d4e5f60718293a4b''"

text \<open>A store that holds the one record of the scenario, under the identifier \<open>idX\<close>.\<close>

definition scenarioDriver :: driver where
  "scenarioDriver =
     \<lparr> countDocuments = (\<lambda>f. Inr 1),
       deleteMany = (\<lambda>f. Inr 1),
       insertOne = (\<lambda>d. Inr (VOid (ObjectId idX))),
       collection_find = (\<lambda>f opts. Inr [[(''_id'', VOid (ObjectId idX)), (''usr_name'', VStr ''ann'')]]),
       findOne = (\<lambda>f opts. Inr (Some [(''_id'', VOid (ObjectId idX)), (''usr_name'', VStr ''ann'')])),
       updateMany = (\<lambda>f vs. Inr 1),
       listCollections = (\<lambda>name. Inr [name]),
       collection_drop = Inr True,
       new_ObjectId = example_ObjectId \<rparr>"

text \<open>A store whose listing reports the given collections.\<close>

definition listingDriver :: "string list \<Rightarrow> driver" where
  "listingDriver names = scenarioDriver \<lparr> listCollections := (\<lambda>name. Inr names) \<rparr>"

text \<open>A store that is down: every request fails.\<close>

definition failingDriver :: driver where
  "failingDriver =
     \<lparr> countDocuments = (\<lambda>f. Inl (DriverError ''connection lost'')),
       deleteMany = (\<lambda>f. Inl (DriverError ''connection lost'')),
       insertOne = (\<lambda>d. Inl (DriverError ''connection lost'')),
       collection_find = (\<lambda>f opts. Inl (DriverError ''connection lost'')),
       findOne = (\<lambda>f opts. Inl (DriverError ''connection lost'')),
       updateMany = (\<lambda>f vs. Inl (DriverError ''connection lost'')),
       listCollections = (\<lambda>name. Inl (DriverError ''connection lost'')),
       collection_drop = Inl (DriverError ''connection lost''),
       new_ObjectId = example_ObjectId \<rparr>"

text \<open>Two configurations with one identifier selector for the field \<^verbatim>\<open>refs\<close>: an exact name, and a pattern.\<close>

definition refsExact :: MongoDataAccess where
  "refsExact =
     constructor ''users'' (Some \<lparr> fieldsProps = None, idFields = Some [Exact ''refs''] \<rparr>)"

definition refsPattern :: MongoDataAccess where
  "refsPattern =
     constructor ''users''
       (Some \<lparr> fieldsProps = None, idFields = Some [RegExp (\<lambda>key. key = ''refs'')] \<rparr>)"

section \<open>Auxiliary notions for the proofs\<close>

text \<open>
  Whether a selector of \<^verbatim>\<open>idFields\<close> picks a key, and the value it then stores: both
  branches of the inner loop of \<^verbatim>\<open>parseStringsIDs\<close> in one form
  (lemma \<open>forSelectors_Cons\<close>).
\<close>

definition selects :: "fieldSelector \<Rightarrow> string \<Rightarrow> bool" where
  "selects sel key = (case sel of RegExp matches \<Rightarrow> matches key | Exact name \<Rightarrow> key = name)"

fun coerced :: "(val \<Rightarrow> error + ObjectId) \<Rightarrow> fieldSelector \<Rightarrow> val \<Rightarrow> error + val" where
  "coerced c (RegExp matches) (VArr items) =
     (case mapParseValue c items of Inl e \<Rightarrow> Inl e | Inr items' \<Rightarrow> Inr (VArr items'))"
| "coerced c sel v = parseValue c v"

text \<open>The application name of a stored field: the lookup of \<^verbatim>\<open>mapDocumentToData\<close>.\<close>

definition applicationName :: "MongoDataAccess \<Rightarrow> string \<Rightarrow> string" where
  "applicationName this fieldName =
     (case map_of (fieldsPropsMap this) fieldName of None \<Rightarrow> fieldName | Some p \<Rightarrow> p)"

section \<open>Keys of a document under identifier coercion\<close>

lemma hasOwnProperty_deleteProp: "\<not> hasOwnProperty (deleteProp k obj) k"
  by (auto simp: hasOwnProperty_def deleteProp_def)

lemma keys_setProp_present: "hasOwnProperty obj k \<Longrightarrow> map fst (setProp k v obj) = map fst obj"
  by (induction obj) (force simp: hasOwnProperty_def)+

lemma hasOwnProperty_keys: "map fst obj' = map fst obj \<Longrightarrow> hasOwnProperty obj' k = hasOwnProperty obj k"
  by (simp add: hasOwnProperty_def)

lemma forSelectors_Cons:
  "forSelectors c key v (sel # sels) document =
     (if selects sel key then
        (case coerced c sel v of
           Inl e \<Rightarrow> Inl e
         | Inr v' \<Rightarrow> forSelectors c key v sels (setProp key v' document))
      else forSelectors c key v sels document)"
proof (cases sel)
  case (Exact name)
  then show ?thesis by (simp add: selects_def)
next
  case (RegExp matches)
  then show ?thesis by (cases v) (simp_all add: selects_def split: sum.split)
qed

lemma forSelectors_keys:
  "hasOwnProperty document key \<Longrightarrow> forSelectors c key v sels document = Inr document'
     \<Longrightarrow> map fst document' = map fst document"
proof (induction sels arbitrary: document)
  case Nil
  then show ?case by simp
next
  case (Cons sel sels)
  show ?case
  proof (cases "selects sel key")
    case False
    with Cons show ?thesis by (simp add: forSelectors_Cons)
  next
    case True
    with Cons.prems(2) obtain v' where
      rest: "forSelectors c key v sels (setProp key v' document) = Inr document'"
      by (auto simp: forSelectors_Cons split: sum.splits)
    have keys: "map fst (setProp key v' document) = map fst document"
      using Cons.prems(1) by (rule keys_setProp_present)
    then have "hasOwnProperty (setProp key v' document) key"
      using Cons.prems(1) by (simp add: hasOwnProperty_def)
    from Cons.IH [OF this rest] keys show ?thesis by simp
  qed
qed

lemma forKeys_keys:
  "forKeys c sels keys document = Inr document' \<Longrightarrow> map fst document' = map fst document"
proof (induction keys arbitrary: document)
  case Nil
  then show ?case by simp
next
  case (Cons key keys)
  show ?case
  proof (cases "hasOwnProperty document key")
    case False
    with Cons show ?thesis by simp
  next
    case True
    with Cons.prems obtain d1 where
      d1: "forSelectors c key (getProp document key) sels document = Inr d1"
      and rest: "forKeys c sels keys d1 = Inr document'"
      by (auto split: sum.splits)
    from forSelectors_keys [OF True d1] Cons.IH [OF rest] show ?thesis by simp
  qed
qed

lemma parseStringsIDs_keys:
  "parseStringsIDs this c document = Inr document' \<Longrightarrow> map fst document' = map fst document"
  unfolding parseStringsIDs_def by (rule forKeys_keys)


lemma mapDataToDocument_no_null_id:
  assumes "isNullish (getProp (renameProps this data) ''_id'')"
  shows "\<not> hasOwnProperty (mapDataToDocument this data) ''_id''"
proof (cases data)
  case JNull
  then show ?thesis by (simp add: hasOwnProperty_def)
next
  case JUndefined
  with assms show ?thesis by (simp add: Let_def hasOwnProperty_deleteProp)
next
  case (JObj d)
  with assms show ?thesis by (simp add: Let_def hasOwnProperty_deleteProp)
qed

lemma scenario_simps:
  "collectionName scenario = ''users''"
  "fieldsPropsMap scenario = [(''_id'', ''id''), (''usr_name'', ''username'')]"
  "this_idFields scenario = [Exact ''_id'']"
  by (simp_all add: scenario_def constructor_def new_Map_def)

lemmas eval_defs = renameProps_def renameStep_def hasOwnProperty_def getProp_def
  deleteProp_def Let_def parseStringsIDs_def mapDocumentToData_def

lemma scenario_null_id_renamed:
  "renameProps scenario (JObj [(''username'', VStr ''ann''), (''id'', VNull)])
     = [(''_id'', VNull), (''usr_name'', VStr ''ann'')]"
  by (simp add: eval_defs scenario_simps)

section \<open>Insertion without a primary identifier\<close>

text \<open>
  Claim C6. When the primary-identifier field of the value passed to \<^verbatim>\<open>insert\<close> (the
  field \<^verbatim>\<open>_id\<close> after renaming) is \<^verbatim>\<open>null\<close>, \<^verbatim>\<open>undefined\<close> or absent, then either the
  identifier coercion throws and the driver is not called at all, or the one driver call
  is \<^verbatim>\<open>insertOne\<close> with a document that has no \<^verbatim>\<open>_id\<close> field.
\<close>

theorem insert_omits_null_id:
  assumes "isNullish (getProp (renameProps this data) ''_id'')"
  shows "case parseStringsIDs this (new_ObjectId drv) (mapDataToDocument this data) of
           Inl e \<Rightarrow> insert_op this drv data = (Inl e, [])
         | Inr doc \<Rightarrow> snd (insert_op this drv data) = [InsertOne doc]
                       \<and> \<not> hasOwnProperty doc ''_id''"
proof (cases "parseStringsIDs this (new_ObjectId drv) (mapDataToDocument this data)")
  case (Inl e)
  then show ?thesis by (simp add: insert_op_def)
next
  case (Inr doc)
  from parseStringsIDs_keys [OF Inr] mapDataToDocument_no_null_id [OF assms]
  have "\<not> hasOwnProperty doc ''_id''" by (simp add: hasOwnProperty_def)
  with Inr show ?thesis by (simp add: insert_op_def split: sum.split)
qed

text \<open>
  C6 on the scenario: \<^verbatim>\<open>{ username: "ann", id: null }\<close> is inserted as
  \<^verbatim>\<open>{ usr_name: "ann" }\<close>.
\<close>

theorem insert_omits_null_id_witness:
  "isNullish (getProp (renameProps scenario (JObj [(''username'', VStr ''ann''), (''id'', VNull)])) ''_id'')
   \<and> snd (insert_op scenario scenarioDriver (JObj [(''username'', VStr ''ann''), (''id'', VNull)]))
       = [InsertOne [(''usr_name'', VStr ''ann'')]]"
proof -
  let ?data = "JObj [(''username'', VStr ''ann''), (''id'', VNull)]"
  have h: "isNullish (getProp (renameProps scenario ?data) ''_id'')"
    by (simp add: scenario_null_id_renamed getProp_def)
  have m: "mapDataToDocument scenario ?data = [(''usr_name'', VStr ''ann'')]"
    by (simp add: scenario_null_id_renamed getProp_def deleteProp_def)
  have p: "parseStringsIDs scenario (new_ObjectId scenarioDriver) [(''usr_name'', VStr ''ann'')]
           = Inr [(''usr_name'', VStr ''ann'')]"
    by (simp add: parseStringsIDs_def scenario_simps hasOwnProperty_def)
  from insert_omits_null_id [OF h, of scenarioDriver, unfolded m p] h show ?thesis
    by simp
qed

section \<open>Dropping the collection\<close>

text \<open>
  Claim C8. \<^verbatim>\<open>drop(false)\<close> returns \<^verbatim>\<open>false\<close>, makes no driver call and does not fail,
  whatever the driver does; and it is the only operation with that guarantee: under a
  driver that fails every request, \<^verbatim>\<open>count\<close>, \<^verbatim>\<open>delete\<close>, \<^verbatim>\<open>insert\<close>, \<^verbatim>\<open>select\<close>,
  \<^verbatim>\<open>selectOne\<close>, \<^verbatim>\<open>update\<close> and the confirmed \<^verbatim>\<open>drop\<close> all fail on every input.
\<close>

theorem drop_unconfirmed_never_fails:
  "drop_op this drv False = (Inr False, [])
   \<and> (\<exists>drv'. \<forall>this' f v opts.
         isl (fst (count this' drv' f)) \<and> isl (fst (delete this' drv' f))
       \<and> isl (fst (insert_op this' drv' v)) \<and> isl (fst (select this' drv' f opts))
       \<and> isl (fst (selectOne this' drv' f opts)) \<and> isl (fst (update this' drv' f v))
       \<and> isl (fst (drop_op this' drv' True)))"
proof
  show "drop_op this drv False = (Inr False, [])"
    by (simp add: drop_op_def)
next
  have "\<forall>this' f v opts.
         isl (fst (count this' failingDriver f)) \<and> isl (fst (delete this' failingDriver f))
       \<and> isl (fst (insert_op this' failingDriver v)) \<and> isl (fst (select this' failingDriver f opts))
       \<and> isl (fst (selectOne this' failingDriver f opts)) \<and> isl (fst (update this' failingDriver f v))
       \<and> isl (fst (drop_op this' failingDriver True))"
    by (simp add: count_def delete_def insert_op_def select_def selectOne_def update_def
        drop_op_def failingDriver_def Let_def split: sum.split)
  then show "\<exists>drv'. \<forall>this' f v opts.
         isl (fst (count this' drv' f)) \<and> isl (fst (delete this' drv' f))
       \<and> isl (fst (insert_op this' drv' v)) \<and> isl (fst (select this' drv' f opts))
       \<and> isl (fst (selectOne this' drv' f opts)) \<and> isl (fst (update this' drv' f v))
       \<and> isl (fst (drop_op this' drv' True))"
    by (rule exI)
qed

text \<open>
  Claim C7. A confirmed \<^verbatim>\<open>drop\<close> whose listing succeeds: with more than one collection of
  the configured name it throws an \<^verbatim>\<open>Error\<close> and the listing is its only driver call;
  with exactly one it calls the driver's drop after the listing and returns \<^verbatim>\<open>true\<close>
  (an error of the driver's drop is passed on); with none it returns \<^verbatim>\<open>true\<close> and the
  listing is its only driver call.
\<close>

theorem drop_confirmed:
  assumes "listCollections drv (collectionName this) = Inr collections"
  shows "(length collections > 1 \<longrightarrow>
            (\<exists>msg. fst (drop_op this drv True) = Inl (Error msg))
          \<and> snd (drop_op this drv True) = [ListCollections (collectionName this)])
       \<and> (length collections = 1 \<longrightarrow>
            snd (drop_op this drv True)
              = [ListCollections (collectionName this), Drop (collectionName this)]
          \<and> (\<forall>dropped. collection_drop drv = Inr dropped \<longrightarrow> fst (drop_op this drv True) = Inr True)
          \<and> (\<forall>e. collection_drop drv = Inl e \<longrightarrow> fst (drop_op this drv True) = Inl e))
       \<and> (length collections = 0 \<longrightarrow>
            drop_op this drv True = (Inr True, [ListCollections (collectionName this)]))"
  using assms by (simp add: drop_op_def split: sum.split)

text \<open>The three cases of C7 on the collection \<^verbatim>\<open>users\<close>.\<close>

theorem drop_confirmed_witness:
  "drop_op scenario (listingDriver [''users'', ''users'']) True
     = (Inl (Error ''More than 1 collection found with name: users''), [ListCollections ''users''])
   \<and> drop_op scenario (listingDriver [''users'']) True
     = (Inr True, [ListCollections ''users'', Drop ''users''])
   \<and> drop_op scenario (listingDriver []) True = (Inr True, [ListCollections ''users''])"
proof -
  have l: "listCollections (listingDriver names) (collectionName scenario) = Inr names" for names
    by (simp add: listingDriver_def)
  have l': "listCollections (listingDriver names) n = Inr names" for names n
    by (simp add: listingDriver_def)
  have d: "collection_drop (listingDriver names) = Inr True" for names
    by (simp add: listingDriver_def scenarioDriver_def)
  have two: "fst (drop_op scenario (listingDriver [''users'', ''users'']) True)
               = Inl (Error ''More than 1 collection found with name: users'')"
    by (simp add: drop_op_def l' scenario_simps)
  from drop_confirmed [OF l, of "[''users'', ''users'']"]
       drop_confirmed [OF l, of "[''users'']"]
       drop_confirmed [OF l, of "[]"] d two
  show ?thesis by (auto simp: scenario_simps prod_eq_iff)
qed

section \<open>Filters\<close>

text \<open>
  Claim C10. A filter whose primary-identifier field is \<^verbatim>\<open>null\<close> after renaming reaches
  the driver, from \<^verbatim>\<open>select\<close>, \<^verbatim>\<open>selectOne\<close> and \<^verbatim>\<open>update\<close>, with that field
  removed: the filter sent has no \<^verbatim>\<open>_id\<close> constraint.
\<close>

theorem null_id_filter_constraint_removed:
  assumes "getProp (renameProps this (orEmpty f)) ''_id'' = VNull"
  shows "snd (select this drv f opts)
           = [Find (deleteProp ''_id'' (renameProps this (orEmpty f))) opts]
       \<and> snd (selectOne this drv f opts)
           = [FindOne (deleteProp ''_id'' (renameProps this (orEmpty f))) opts]
       \<and> snd (update this drv f vs)
           = [UpdateMany (deleteProp ''_id'' (renameProps this (orEmpty f))) vs]
       \<and> \<not> hasOwnProperty (deleteProp ''_id'' (renameProps this (orEmpty f))) ''_id''"
proof -
  have m: "mapDataToDocument this (orEmpty f) = deleteProp ''_id'' (renameProps this (orEmpty f))"
    using assms by (cases f) (simp_all add: Let_def)
  show ?thesis
    by (simp add: select_def selectOne_def update_def m Let_def hasOwnProperty_deleteProp
        split: sum.split option.split)
qed

text \<open>
  The example of C10: under the scenario's rename table the filter \<^verbatim>\<open>{ id: null }\<close>
  reaches the driver as \<^verbatim>\<open>{}\<close>, which matches every document.
\<close>

theorem null_id_filter_constraint_removed_witness:
  "getProp (renameProps scenario (orEmpty (JObj [(''id'', VNull)]))) ''_id'' = VNull
   \<and> snd (select scenario scenarioDriver (JObj [(''id'', VNull)]) VUndefined) = [Find [] VUndefined]
   \<and> snd (selectOne scenario scenarioDriver (JObj [(''id'', VNull)]) VUndefined) = [FindOne [] VUndefined]
   \<and> snd (update scenario scenarioDriver (JObj [(''id'', VNull)]) (JObj [(''username'', VStr ''bob'')]))
       = [UpdateMany [] (JObj [(''username'', VStr ''bob'')])]"
proof -
  have r: "renameProps scenario (JObj [(''id'', VNull)]) = [(''_id'', VNull)]"
    by (simp add: eval_defs scenario_simps)
  have h: "getProp (renameProps scenario (orEmpty (JObj [(''id'', VNull)]))) ''_id'' = VNull"
    by (simp add: r getProp_def)
  from null_id_filter_constraint_removed [OF h, unfolded orEmpty.simps r] h show ?thesis
    by (simp add: deleteProp_def)
qed

subsection \<open>The values of a filter are passed on unchanged\<close>

lemma setProp_set: "set (setProp k v obj) \<subseteq> insert (k, v) (set obj)"
  by (induction obj) (auto split: if_splits)

lemma setProp_values: "snd ` set (setProp k v obj) \<subseteq> insert v (snd ` set obj)"
  using image_mono [OF setProp_set, of snd k v obj] by simp

lemma deleteProp_values: "snd ` set (deleteProp k obj) \<subseteq> snd ` set obj"
  by (auto simp: deleteProp_def)

lemma Object_assign_values:
  "snd ` set (Object_assign t (JObj src)) \<subseteq> snd ` set t \<union> snd ` set src"
proof (induction src arbitrary: t)
  case Nil
  then show ?case by simp
next
  case (Cons kv src)
  obtain k v where kv: "kv = (k, v)" by (cases kv)
  have "snd ` set (Object_assign (setProp k v t) (JObj src))
          \<subseteq> snd ` set (setProp k v t) \<union> snd ` set src"
    by (rule Cons.IH)
  then have "snd ` set (Object_assign (setProp k v t) (JObj src))
          \<subseteq> insert v (snd ` set t) \<union> snd ` set src"
    using setProp_values [of k v t] by blast
  then show ?case
    by (simp add: kv)
qed

lemma getProp_in_values: "hasOwnProperty obj k \<Longrightarrow> getProp obj k \<in> snd ` set obj"
proof -
  assume "hasOwnProperty obj k"
  then obtain v where v: "map_of obj k = Some v"
    by (auto simp: hasOwnProperty_def dest: weak_map_of_SomeI)
  then have "(k, v) \<in> set obj" by (rule map_of_SomeD)
  then have "v \<in> snd ` set obj" by force
  with v show ?thesis by (simp add: getProp_def)
qed

lemma renameStep_values:
  "snd ` set (renameStep dataObject document entry) \<subseteq> snd ` set document \<union> snd ` set dataObject"
proof (cases entry)
  case (Pair field p)
  show ?thesis
  proof (cases "hasOwnProperty dataObject p")
    case False
    with Pair show ?thesis by (auto simp: renameStep_def)
  next
    case True
    have step: "snd ` set (deleteProp p (setProp field (getProp dataObject p) document))
            \<subseteq> insert (getProp dataObject p) (snd ` set document)"
      using deleteProp_values [of p "setProp field (getProp dataObject p) document"]
        setProp_values [of field "getProp dataObject p" document]
      by (rule subset_trans)
    have "insert (getProp dataObject p) (snd ` set document)
            \<subseteq> snd ` set document \<union> snd ` set dataObject"
      using getProp_in_values [OF True] by simp
    with step
    have "snd ` set (deleteProp p (setProp field (getProp dataObject p) document))
            \<subseteq> snd ` set document \<union> snd ` set dataObject"
      by (rule subset_trans)
    moreover have "renameStep dataObject document entry
            = deleteProp p (setProp field (getProp dataObject p) document)"
      using True Pair by (simp add: renameStep_def Let_def)
    ultimately show ?thesis by simp
  qed
qed

lemma foldl_renameStep_values:
  "snd ` set (foldl (renameStep dataObject) document entries)
     \<subseteq> snd ` set document \<union> snd ` set dataObject"
proof (induction entries arbitrary: document)
  case Nil
  then show ?case by simp
next
  case (Cons entry entries)
  from Cons.IH [of "renameStep dataObject document entry"]
       renameStep_values [of dataObject document entry]
  show ?case by auto
qed

lemma renameProps_values: "snd ` set (renameProps this (JObj d)) \<subseteq> snd ` set d"
proof -
  let ?dataObject = "Object_assign [] (JObj d)"
  let ?document = "Object_assign [] (JObj ?dataObject)"
  have a: "snd ` set ?dataObject \<subseteq> snd ` set d"
    using Object_assign_values [of "[]" d] by simp
  have b: "snd ` set ?document \<subseteq> snd ` set ?dataObject"
    using Object_assign_values [of "[]" ?dataObject] by simp
  then have "snd ` set ?document \<union> snd ` set ?dataObject \<subseteq> snd ` set ?dataObject"
    by simp
  with foldl_renameStep_values [of ?dataObject ?document "fieldsPropsMap this"]
  have "snd ` set (foldl (renameStep ?dataObject) ?document (fieldsPropsMap this))
          \<subseteq> snd ` set ?dataObject"
    by (rule subset_trans)
  then have "snd ` set (foldl (renameStep ?dataObject) ?document (fieldsPropsMap this))
          \<subseteq> snd ` set d"
    using a by (rule subset_trans)
  then show ?thesis by (simp add: renameProps_def Let_def)
qed

lemma mapDataToDocument_values: "snd ` set (mapDataToDocument this (JObj d)) \<subseteq> snd ` set d"
proof (cases "isNullish (getProp (renameProps this (JObj d)) ''_id'')")
  case True
  then have "mapDataToDocument this (JObj d) = deleteProp ''_id'' (renameProps this (JObj d))"
    by (simp add: Let_def)
  with renameProps_values [of this d] deleteProp_values [of "''_id''" "renameProps this (JObj d)"]
  show ?thesis by (simp only:)
next
  case False
  then have "mapDataToDocument this (JObj d) = renameProps this (JObj d)"
    by (simp add: Let_def)
  with renameProps_values [of this d] show ?thesis by simp
qed

lemma scenario_id_filter: "mapDataToDocument scenario (JObj [(''id'', VStr s)]) = [(''_id'', VStr s)]"
  by (simp add: eval_defs scenario_simps)

lemma scenario_record_mapped:
  "mapDocumentToData scenario [(''_id'', VOid (ObjectId idX)), (''usr_name'', VStr ''ann'')]
     = [(''id'', VOid (ObjectId idX)), (''username'', VStr ''ann'')]"
  by (simp add: eval_defs scenario_simps)

lemma scenario_record_coerced:
  "parseStringsIDs scenario c [(''id'', VOid (ObjectId idX)), (''username'', VStr ''ann'')]
     = Inr [(''id'', VOid (ObjectId idX)), (''username'', VStr ''ann'')]"
  by (simp add: eval_defs scenario_simps)

text \<open>
  Claim C1, as amended. The filter that \<^verbatim>\<open>select\<close> and \<^verbatim>\<open>selectOne\<close> send to the
  driver is \<^verbatim>\<open>mapDataToDocument\<close> of the caller's filter: field names are rewritten to
  stored names, and no identifier coercion is applied, so every value sent is a value of
  the caller's filter. In the scenario the filter \<^verbatim>\<open>{ id: s }\<close> is sent as
  \<^verbatim>\<open>{ _id: s }\<close>, with the string as given.
\<close>

theorem select_filter_renamed_not_coerced:
  "snd (select this drv (JObj d) opts) = [Find (mapDataToDocument this (JObj d)) opts]
   \<and> snd (selectOne this drv (JObj d) opts) = [FindOne (mapDataToDocument this (JObj d)) opts]
   \<and> snd ` set (mapDataToDocument this (JObj d)) \<subseteq> snd ` set d
   \<and> mapDataToDocument scenario (JObj [(''id'', VStr s)]) = [(''_id'', VStr s)]"
proof -
  have "snd (select this drv (JObj d) opts) = [Find (mapDataToDocument this (JObj d)) opts]"
    by (simp add: select_def Let_def del: mapDataToDocument.simps split: sum.split)
  moreover
  have "snd (selectOne this drv (JObj d) opts) = [FindOne (mapDataToDocument this (JObj d)) opts]"
    by (simp add: selectOne_def Let_def del: mapDataToDocument.simps split: sum.split option.split)
  ultimately show ?thesis
    using mapDataToDocument_values [of this d] scenario_id_filter [of s] by (simp only: simp_thms)
qed

text \<open>
  Claim C1 as stated fails: for the valid identifier string \<open>idX\<close> the filter sent is not
  \<^verbatim>\<open>{ _id: X }\<close> with the native identifier.
\<close>

theorem select_filter_coerced_counterexample:
  "example_ObjectId (VStr idX) = Inr (ObjectId idX)
   \<and> snd (select scenario scenarioDriver (JObj [(''id'', VStr idX)]) VUndefined)
       \<noteq> [Find [(''_id'', VOid (ObjectId idX))] VUndefined]
   \<and> snd (selectOne scenario scenarioDriver (JObj [(''id'', VStr idX)]) VUndefined)
       \<noteq> [FindOne [(''_id'', VOid (ObjectId idX))] VUndefined]"
proof -
  have "example_ObjectId (VStr idX) = Inr (ObjectId idX)"
    by (simp add: idX_def isHexDigit_def)
  moreover
  have "snd (select scenario scenarioDriver (JObj [(''id'', VStr idX)]) VUndefined)
          = [Find [(''_id'', VStr idX)] VUndefined]"
    by (simp add: select_def Let_def scenario_id_filter del: mapDataToDocument.simps split: sum.split)
  moreover
  have "snd (selectOne scenario scenarioDriver (JObj [(''id'', VStr idX)]) VUndefined)
          = [FindOne [(''_id'', VStr idX)] VUndefined]"
    by (simp add: selectOne_def Let_def scenario_id_filter del: mapDataToDocument.simps
        split: sum.split option.split)
  ultimately show ?thesis by simp
qed

subsection \<open>\<^verbatim>\<open>count\<close> and \<^verbatim>\<open>delete\<close>\<close>

text \<open>
  Claim C3. \<^verbatim>\<open>count\<close> and \<^verbatim>\<open>delete\<close> hand the caller's filter to the driver as it is;
  in the scenario the filter \<^verbatim>\<open>{ id: idX }\<close> is sent under the application name
  \<^verbatim>\<open>id\<close>, whereas \<^verbatim>\<open>mapDataToDocument\<close> maps it to \<^verbatim>\<open>{ _id: idX }\<close>.
\<close>

theorem count_delete_send_filter_unmapped:
  "snd (count scenario scenarioDriver (JObj [(''id'', VStr idX)]))
     = [CountDocuments (JObj [(''id'', VStr idX)])]
   \<and> snd (delete scenario scenarioDriver (JObj [(''id'', VStr idX)]))
     = [DeleteMany (JObj [(''id'', VStr idX)])]
   \<and> mapDataToDocument scenario (JObj [(''id'', VStr idX)]) = [(''_id'', VStr idX)]"
  by (simp add: count_def delete_def scenario_id_filter del: mapDataToDocument.simps)

section \<open>Records returned by \<^verbatim>\<open>select\<close> and \<^verbatim>\<open>selectOne\<close>\<close>

text \<open>
  Claim C2. In the scenario the record \<^verbatim>\<open>{ _id: X, usr_name: "ann" }\<close> found by the
  driver is returned as \<^verbatim>\<open>{ id: X, username: "ann" }\<close> with \<^verbatim>\<open>X\<close> still a native
  identifier: the selector \<^verbatim>\<open>"_id"\<close> is compared with the key after renaming, \<^verbatim>\<open>id\<close>.
\<close>

theorem select_scenario_identifier_stays_native:
  "fst (selectOne scenario scenarioDriver (JObj [(''id'', VStr idX)]) VUndefined)
     = Inr (Some [(''id'', VOid (ObjectId idX)), (''username'', VStr ''ann'')])
   \<and> fst (select scenario scenarioDriver (JObj [(''id'', VStr idX)]) VUndefined)
     = Inr [[(''id'', VOid (ObjectId idX)), (''username'', VStr ''ann'')]]"
  by (simp add: selectOne_def select_def Let_def scenarioDriver_def scenario_record_mapped
      scenario_record_coerced del: mapDataToDocument.simps)

section \<open>Array-valued identifier fields\<close>

lemma refs_simps:
  "this_idFields refsExact = [Exact ''refs'']"
  "this_idFields refsPattern = [RegExp (\<lambda>key. key = ''refs'')]"
  by (simp_all add: refsExact_def refsPattern_def constructor_def)

text \<open>
  Claim C4. For a field picked by an exact-name selector, an array value is handed whole
  to the identifier constructor: the result is an error or a single identifier, never an
  array. The same document under a pattern selector is coerced element by element.
\<close>

theorem exact_selector_array_not_elementwise:
  "parseStringsIDs refsExact c [(''refs'', VArr items)]
     = (case c (VArr items) of Inl e \<Rightarrow> Inl e | Inr oid \<Rightarrow> Inr [(''refs'', VOid oid)])
   \<and> parseStringsIDs refsExact example_ObjectId [(''refs'', VArr [VStr idX, VStr idX])]
     = Inl (DriverError ''invalid identifier'')
   \<and> parseStringsIDs refsPattern example_ObjectId [(''refs'', VArr [VStr idX, VStr idX])]
     = Inr [(''refs'', VArr [VOid (ObjectId idX), VOid (ObjectId idX)])]"
proof -
  have a: "parseStringsIDs refsExact c' [(''refs'', VArr items')]
     = (case c' (VArr items') of Inl e \<Rightarrow> Inl e | Inr oid \<Rightarrow> Inr [(''refs'', VOid oid)])"
    for c' items'
    by (simp add: parseStringsIDs_def refs_simps hasOwnProperty_def getProp_def split: sum.split)
  have x: "example_ObjectId (VStr idX) = Inr (ObjectId idX)"
    by (simp add: idX_def isHexDigit_def)
  have b: "parseStringsIDs refsPattern example_ObjectId [(''refs'', VArr [VStr idX, VStr idX])]
     = Inr [(''refs'', VArr [VOid (ObjectId idX), VOid (ObjectId idX)])]"
    by (simp add: parseStringsIDs_def refs_simps hasOwnProperty_def getProp_def x
        del: example_ObjectId.simps)
  from a [of c items] a [of example_ObjectId "[VStr idX, VStr idX]"] b show ?thesis
    by simp
qed

text \<open>Under a pattern selector the coerced array keeps length and order.\<close>

lemma mapParseValue_length:
  "mapParseValue c items = Inr items' \<Longrightarrow> length items' = length items"
  by (induction items arbitrary: items') (auto split: sum.splits)

lemma mapParseValue_nth:
  "mapParseValue c items = Inr items' \<Longrightarrow> i < length items
     \<Longrightarrow> parseValue c (items ! i) = Inr (items' ! i)"
proof (induction items arbitrary: items' i)
  case Nil
  then show ?case by simp
next
  case (Cons item items)
  then show ?case by (cases i) (auto split: sum.splits)
qed


section \<open>\<^verbatim>\<open>mapDataToDocument\<close> does not mutate its input\<close>

text \<open>
  On the object store, the two objects that \<^verbatim>\<open>mapDataToDocument\<close> allocates are the
  next two addresses; the loop writes the second one only, and its content at the end is
  what the function on values computes.
\<close>

lemma deref_append_left: "a < length h \<Longrightarrow> deref (h @ objs) a = h ! a"
  by (simp add: deref_def nth_append)

lemma deref_two:
  "deref (h @ [x, y]) (length h) = x"
  "deref (h @ [x, y]) (Suc (length h)) = y"
  by (simp_all add: deref_def nth_append)

lemma update_second: "(h @ [x, y])[Suc (length h) := z] = h @ [x, z]"
  by (simp add: list_update_append)

lemma renameStep_h_refines:
  "renameStep_h (length h) (Suc (length h)) (h @ [dataObject, document]) entry
     = h @ [dataObject, renameStep dataObject document entry]"
proof (cases entry)
  case (Pair field p)
  then show ?thesis
    by (simp add: renameStep_h_def renameStep_def Let_def deref_two update_second)
qed

lemma foldl_renameStep_h_refines:
  "foldl (renameStep_h (length h) (Suc (length h))) (h @ [dataObject, document]) entries
     = h @ [dataObject, foldl (renameStep dataObject) document entries]"
  by (induction entries arbitrary: document) (simp_all add: renameStep_h_refines)

lemma mapDataToDocument_h_refines:
  assumes "r < length h"
  shows "mapDataToDocument_h this h (RObj r)
           = (h @ [Object_assign [] (JObj (h ! r)), mapDataToDocument this (JObj (h ! r))],
              Suc (length h))"
proof -
  let ?dataObject = "Object_assign [] (JObj (h ! r))"
  let ?document = "Object_assign [] (JObj ?dataObject)"
  have a: "(h @ [[]])[length h := Object_assign (deref (h @ [[]]) (length h)) (source_of (h @ [[]]) (RObj r))]
             = h @ [?dataObject]"
    using assms by (simp add: deref_def nth_append)
  have b: "(h @ [?dataObject] @ [[]])[Suc (length h) :=
              Object_assign (deref (h @ [?dataObject] @ [[]]) (Suc (length h)))
                (JObj (deref (h @ [?dataObject] @ [[]]) (length h)))]
             = h @ [?dataObject, ?document]"
    by (simp add: deref_def nth_append list_update_append)
  show ?thesis
    using a b
    by (simp add: alloc_def Let_def foldl_renameStep_h_refines deref_two update_second
        renameProps_def)
qed

text \<open>
  Claim C9. \<^verbatim>\<open>mapDataToDocument\<close> called on a reference to an object of the store leaves
  every property of that object as it was, indeed leaves every object of the store as it
  was, and returns a reference to a newly allocated object, different from its input; that
  object holds the mapped document.
\<close>

theorem mapDataToDocument_leaves_input_unchanged:
  assumes "r < length h"
  shows "case mapDataToDocument_h this h (RObj r) of
           (h', document) \<Rightarrow>
             deref h' r = deref h r
           \<and> document \<noteq> r
           \<and> length h \<le> document \<and> document < length h'
           \<and> take (length h) h' = h
           \<and> deref h' document = mapDataToDocument this (JObj (deref h r))"
  using assms
  by (simp add: mapDataToDocument_h_refines deref_def nth_append
      del: mapDataToDocument.simps mapDataToDocument_h.simps)

text \<open>C9 on a store with one object, \<^verbatim>\<open>{ username: "ann", id: null }\<close>.\<close>

theorem mapDataToDocument_leaves_input_unchanged_witness:
  "(0::nat) < length [[(''username'', VStr ''ann''), (''id'', VNull)]]
   \<and> mapDataToDocument_h scenario [[(''username'', VStr ''ann''), (''id'', VNull)]] (RObj 0)
       = ([[(''username'', VStr ''ann''), (''id'', VNull)],
           [(''username'', VStr ''ann''), (''id'', VNull)],
           [(''usr_name'', VStr ''ann'')]], 2)"
proof -
  let ?h = "[[(''username'', VStr ''ann''), (''id'', VNull)]]"
  have l: "(0::nat) < length ?h" by simp
  have e: "mapDataToDocument_h scenario ?h (RObj 0)
       = ([[(''username'', VStr ''ann''), (''id'', VNull)],
           [(''username'', VStr ''ann''), (''id'', VNull)],
           [(''usr_name'', VStr ''ann'')]], 2)"
    by (simp add: mapDataToDocument_h_refines eval_defs scenario_simps
        del: mapDataToDocument_h.simps)
  from mapDataToDocument_leaves_input_unchanged [OF l, of scenario] l e show ?thesis
    by simp
qed

section \<open>Mapping to stored form and back\<close>

lemma map_of_setProp: "map_of (setProp k v obj) = (map_of obj)(k \<mapsto> v)"
  by (induction obj) auto

lemma map_of_deleteProp: "map_of (deleteProp k obj) = (map_of obj)(k := None)"
  by (induction obj) (auto simp: deleteProp_def)

lemma keys_setProp: "fst ` set (setProp k v obj) = insert k (fst ` set obj)"
  by (simp add: dom_map_of_conv_image_fst [symmetric] map_of_setProp)

lemma setProp_absent: "k \<notin> fst ` set obj \<Longrightarrow> setProp k v obj = obj @ [(k, v)]"
  by (induction obj) force+

lemma distinct_setProp: "distinct (map fst obj) \<Longrightarrow> distinct (map fst (setProp k v obj))"
  by (induction obj) (auto simp: keys_setProp)

lemma distinct_deleteProp: "distinct (map fst obj) \<Longrightarrow> distinct (map fst (deleteProp k obj))"
  by (simp add: deleteProp_def distinct_map_filter)

lemma deleteProp_absent: "k \<notin> fst ` set obj \<Longrightarrow> deleteProp k obj = obj"
  by (force simp: deleteProp_def filter_id_conv)

lemma foldl_setProp_distinct:
  "distinct (map fst (t @ src)) \<Longrightarrow> foldl (\<lambda>t (k, v). setProp k v t) t src = t @ src"
proof (induction src arbitrary: t)
  case Nil
  then show ?case by simp
next
  case (Cons kv src)
  obtain k v where kv: "kv = (k, v)" by (cases kv)
  from Cons.prems have absent: "k \<notin> fst ` set t" by (auto simp: kv)
  from Cons.prems have "distinct (map fst ((t @ [(k, v)]) @ src))" by (simp add: kv)
  from Cons.IH [OF this] show ?case by (simp add: kv setProp_absent [OF absent])
qed

lemma Object_assign_copy: "distinct (map fst d) \<Longrightarrow> Object_assign [] (JObj d) = d"
  using foldl_setProp_distinct [of "[]" d] by simp

lemma map_of_Map_set: "map_of (Map_set k v m) = (map_of m)(k \<mapsto> v)"
  by (induction m) auto

lemma keys_Map_set: "fst ` set (Map_set k v m) = insert k (fst ` set m)"
  by (simp add: dom_map_of_conv_image_fst [symmetric] map_of_Map_set)

lemma distinct_Map_set: "distinct (map fst m) \<Longrightarrow> distinct (map fst (Map_set k v m))"
  by (induction m) (auto simp: keys_Map_set)

lemma distinct_foldl_Map_set:
  "distinct (map fst m) \<Longrightarrow> distinct (map fst (foldl (\<lambda>m (k, v). Map_set k v m) m entries))"
  by (induction entries arbitrary: m) (auto simp: distinct_Map_set)

lemma distinct_fieldsPropsMap: "distinct (map fst (fieldsPropsMap (constructor name options)))"
  by (simp add: constructor_def new_Map_def distinct_foldl_Map_set)

lemma distinct_renameStep:
  "distinct (map fst document) \<Longrightarrow> distinct (map fst (renameStep dataObject document entry))"
  by (cases entry) (simp add: renameStep_def Let_def distinct_setProp distinct_deleteProp)

lemma distinct_foldl_renameStep:
  "distinct (map fst document)
     \<Longrightarrow> distinct (map fst (foldl (renameStep dataObject) document entries))"
  by (induction entries arbitrary: document) (simp_all add: distinct_renameStep)

lemma map_of_renameStep:
  "map_of (renameStep d document (field, p))
     = (if p \<in> fst ` set d then ((map_of document)(field \<mapsto> getProp d p))(p := None)
        else map_of document)"
  by (simp add: renameStep_def Let_def hasOwnProperty_def map_of_setProp map_of_deleteProp)

lemma getProp_present: "map_of d p = Some v \<Longrightarrow> getProp d p = v"
  by (simp add: getProp_def)


lemma map_of_present: "p \<in> fst ` set d \<Longrightarrow> map_of d p = Some (getProp d p)"
  by (cases "map_of d p") (simp_all add: map_of_eq_None_iff getProp_def)

lemma map_of_absent: "p \<notin> fst ` set d \<Longrightarrow> map_of d p = None"
  by (simp add: map_of_eq_None_iff)

lemma map_of_foldl_renameStep:
  assumes "distinct (map fst es)" and "fst ` set es \<inter> fst ` set d = {}"
  shows "map_of (foldl (renameStep d) d es) k =
           (case map_of es k of
              Some p \<Rightarrow> map_of d p
            | None \<Rightarrow> if k \<in> snd ` set es then None else map_of d k)"
  using assms
proof (induction es arbitrary: k rule: rev_induct)
  case Nil
  then show ?case by simp
next
  case (snoc e es)
  obtain f p where e: "e = (f, p)" by (cases e)
  from snoc.prems have dist: "distinct (map fst es)" and disj: "fst ` set es \<inter> fst ` set d = {}"
    and f_new: "f \<notin> fst ` set es" and f_d: "f \<notin> fst ` set d"
    by (auto simp: e)
  note IH = snoc.IH [OF dist disj]
  have mf: "map_of es f = None" using f_new by (rule map_of_absent)
  have df: "map_of d f = None" using f_d by (rule map_of_absent)
  have L: "map_of (foldl (renameStep d) d (es @ [e])) k =
             (if p \<in> fst ` set d
              then ((map_of (foldl (renameStep d) d es))(f \<mapsto> getProp d p))(p := None)
              else map_of (foldl (renameStep d) d es)) k"
    by (simp add: e map_of_renameStep)
  have A: "map_of (es @ [e]) k =
             (case map_of es k of Some p' \<Rightarrow> Some p' | None \<Rightarrow> if k = f then Some p else None)"
    by (simp add: e map_add_def split: option.split)
  have P: "k \<in> snd ` set (es @ [e]) \<longleftrightarrow> k = p \<or> k \<in> snd ` set es"
    by (auto simp: e)
  show ?case
    unfolding L A P
  proof (cases "p \<in> fst ` set d")
    case True
    then have pd: "map_of d p = Some (getProp d p)" by (rule map_of_present)
    from True f_d have fp: "f \<noteq> p" by auto
    from True disj have "p \<notin> fst ` set es" by auto
    then have mp: "map_of es p = None" by (rule map_of_absent)
    show "(if p \<in> fst ` set d
              then ((map_of (foldl (renameStep d) d es))(f \<mapsto> getProp d p))(p := None)
              else map_of (foldl (renameStep d) d es)) k =
          (case (case map_of es k of Some p' \<Rightarrow> Some p' | None \<Rightarrow> if k = f then Some p else None) of
             Some p \<Rightarrow> map_of d p
           | None \<Rightarrow> if k = p \<or> k \<in> snd ` set es then None else map_of d k)"
    proof (cases "k = f")
      case True
      then show ?thesis by (simp add: mf pd fp fp [symmetric] \<open>p \<in> fst ` set d\<close>)
    next
      case kf: False
      show ?thesis
      proof (cases "k = p")
        case True
        then show ?thesis by (simp add: mp fp fp [symmetric] df \<open>p \<in> fst ` set d\<close>)
      next
        case False
        with kf show ?thesis
          by (simp add: IH \<open>p \<in> fst ` set d\<close> split: option.split)
      qed
    qed
  next
    case False
    then have pd: "map_of d p = None" by (rule map_of_absent)
    show "(if p \<in> fst ` set d
              then ((map_of (foldl (renameStep d) d es))(f \<mapsto> getProp d p))(p := None)
              else map_of (foldl (renameStep d) d es)) k =
          (case (case map_of es k of Some p' \<Rightarrow> Some p' | None \<Rightarrow> if k = f then Some p else None) of
             Some p \<Rightarrow> map_of d p
           | None \<Rightarrow> if k = p \<or> k \<in> snd ` set es then None else map_of d k)"
    proof (cases "k = f")
      case True
      then show ?thesis by (simp add: mf df pd IH False)
    next
      case kf: False
      then show ?thesis
        by (simp add: IH pd False split: option.split)
    qed
  qed
qed


lemma map_of_foldl_rename_other:
  "\<forall>(k, v) \<in> set doc. g k \<noteq> q
     \<Longrightarrow> map_of (foldl (\<lambda>data (k, v). setProp (g k) v data) acc doc) q = map_of acc q"
  by (induction doc arbitrary: acc) (auto simp: map_of_setProp)

lemma map_of_foldl_rename_hit:
  "(k0, w) \<in> set doc \<Longrightarrow> g k0 = q
     \<Longrightarrow> \<forall>(k, v) \<in> set doc. g k = q \<longrightarrow> v = w
     \<Longrightarrow> map_of (foldl (\<lambda>data (k, v). setProp (g k) v data) acc doc) q = Some w"
proof (induction doc arbitrary: acc k0)
  case Nil
  then show ?case by simp
next
  case (Cons kv doc)
  obtain k v where kv: "kv = (k, v)" by (cases kv)
  from Cons.prems(3) have all: "\<forall>(k, v) \<in> set doc. g k = q \<longrightarrow> v = w" by simp
  show ?case
  proof (cases "\<exists>k' v'. (k', v') \<in> set doc \<and> g k' = q")
    case True
    then obtain k' v' where in_doc: "(k', v') \<in> set doc" and hit: "g k' = q" by blast
    with all have "v' = w" by blast
    with in_doc have "(k', w) \<in> set doc" by simp
    then have "map_of (foldl (\<lambda>data (k, v). setProp (g k) v data) (setProp (g k) v acc) doc) q
                 = Some w"
      using hit all by (rule Cons.IH)
    then show ?thesis by (simp add: kv)
  next
    case False
    with Cons.prems(1,2) have head: "k = k0" "v = w" by (auto simp: kv)
    from False have "\<forall>(k, v) \<in> set doc. g k \<noteq> q" by blast
    then have "map_of (foldl (\<lambda>data (k, v). setProp (g k) v data) (setProp (g k) v acc) doc) q
                 = map_of (setProp (g k) v acc) q"
      by (rule map_of_foldl_rename_other)
    with head Cons.prems(2) show ?thesis by (simp add: kv map_of_setProp)
  qed
qed

lemma distinct_foldl_rename:
  "distinct (map fst acc)
     \<Longrightarrow> distinct (map fst (foldl (\<lambda>data (k, v). setProp (g k) v data) acc doc))"
  by (induction doc arbitrary: acc) (auto simp: distinct_setProp)

lemma mapDocumentToData_fold:
  "distinct (map fst doc)
     \<Longrightarrow> mapDocumentToData this doc
           = foldl (\<lambda>data (k, v). setProp (applicationName this k) v data) [] doc"
  by (simp add: mapDocumentToData_def Let_def Object_assign_copy applicationName_def
      del: Object_assign.simps)

text \<open>
  The keys of the record handed to the caller are the application names of the keys of
  the record found: a stored name with a rename entry is replaced by its application name.
\<close>

lemma keys_foldl_rename:
  "fst ` set (foldl (\<lambda>data (k, v). setProp (g k) v data) acc doc)
     = fst ` set acc \<union> g ` fst ` set doc"
proof (induction doc arbitrary: acc)
  case Nil
  then show ?case by simp
next
  case (Cons kv doc)
  obtain k v where kv: "kv = (k, v)" by (cases kv)
  have "fst ` set (foldl (\<lambda>data (k, v). setProp (g k) v data) (setProp (g k) v acc) doc)
          = insert (g k) (fst ` set acc) \<union> g ` fst ` set doc"
    by (simp add: Cons.IH keys_setProp)
  then show ?case by (simp add: kv)
qed

lemma mapDocumentToData_keys:
  "distinct (map fst doc)
     \<Longrightarrow> fst ` set (mapDocumentToData this doc) = applicationName this ` fst ` set doc"
  by (simp add: mapDocumentToData_fold keys_foldl_rename)

lemma renameProps_fold:
  "distinct (map fst d)
     \<Longrightarrow> renameProps this (JObj d) = foldl (renameStep d) d (fieldsPropsMap this)"
  by (simp add: renameProps_def Let_def Object_assign_copy del: Object_assign.simps)


lemma roundtrip_fold:
  assumes obj: "distinct (map fst d)"
    and table: "distinct (map fst (fieldsPropsMap this))"
    and app: "fst ` set (fieldsPropsMap this) \<inter> fst ` set d = {}"
  shows "map_of (mapDocumentToData this (renameProps this (JObj d))) = map_of d"
proof
  fix q
  let ?fpm = "fieldsPropsMap this"
  let ?g = "applicationName this"
  let ?stored = "foldl (renameStep d) d ?fpm"
  note stored_at = map_of_foldl_renameStep [OF table app]
  have dist: "distinct (map fst ?stored)"
    using obj by (rule distinct_foldl_renameStep)
  have entry: "(k, v) \<in> set ?stored \<longleftrightarrow> map_of ?stored k = Some v" for k v
    using dist by simp
  have origin: "map_of d (?g k) = Some v" if "(k, v) \<in> set ?stored" for k v
  proof (cases "map_of ?fpm k")
    case None
    with that show ?thesis
      by (simp add: entry stored_at applicationName_def split: if_splits)
  next
    case (Some p)
    with that show ?thesis
      by (simp add: entry stored_at applicationName_def)
  qed
  have result: "mapDocumentToData this (renameProps this (JObj d))
                  = foldl (\<lambda>data (k, v). setProp (?g k) v data) [] ?stored"
    using dist by (simp add: renameProps_fold [OF obj] mapDocumentToData_fold)
  show "map_of (mapDocumentToData this (renameProps this (JObj d))) q = map_of d q"
  proof (cases "map_of d q")
    case None
    have "\<forall>(k, v) \<in> set ?stored. ?g k \<noteq> q"
      using origin None by fastforce
    then have "map_of (foldl (\<lambda>data (k, v). setProp (?g k) v data) [] ?stored) q = map_of [] q"
      by (rule map_of_foldl_rename_other)
    with None show ?thesis by (simp add: result)
  next
    case (Some w)
    then have q_key: "q \<in> fst ` set d" by (metis map_of_absent option.distinct(1))
    have "\<exists>k0. (k0, w) \<in> set ?stored \<and> ?g k0 = q"
    proof (cases "q \<in> snd ` set ?fpm")
      case True
      then obtain f where f: "(f, q) \<in> set ?fpm" by force
      with table have mf: "map_of ?fpm f = Some q" by simp
      then have "map_of ?stored f = Some w" by (simp add: stored_at Some)
      with mf show ?thesis by (auto simp: entry applicationName_def)
    next
      case False
      from q_key app have "q \<notin> fst ` set ?fpm" by auto
      then have mq: "map_of ?fpm q = None" by (rule map_of_absent)
      with False have "map_of ?stored q = Some w" by (simp add: stored_at Some)
      with mq show ?thesis by (auto simp: entry applicationName_def)
    qed
    then obtain k0 where hit: "(k0, w) \<in> set ?stored" "?g k0 = q" by blast
    have "\<forall>(k, v) \<in> set ?stored. ?g k = q \<longrightarrow> v = w"
      using origin Some by fastforce
    with hit have "map_of (foldl (\<lambda>data (k, v). setProp (?g k) v data) [] ?stored) q = Some w"
      by (rule map_of_foldl_rename_hit)
    with Some show ?thesis by (simp add: result)
  qed
qed


text \<open>
  Claim C5, as amended. Let \<open>d\<close> be an object none of whose keys is a stored name of the
  rename table, and whose renamed form has no \<^verbatim>\<open>_id\<close> field that is \<^verbatim>\<open>null\<close> or
  \<^verbatim>\<open>undefined\<close>. Then \<^verbatim>\<open>mapDocumentToData(mapDataToDocument(d))\<close> has the same fields
  with the same values as \<open>d\<close> (the order of the keys may differ).
\<close>

theorem toApplication_toStored_roundtrip:
  assumes "distinct (map fst d)"
    and "fst ` set (fieldsPropsMap (constructor name options)) \<inter> fst ` set d = {}"
    and "hasOwnProperty (renameProps (constructor name options) (JObj d)) ''_id''
           \<longrightarrow> \<not> isNullish (getProp (renameProps (constructor name options) (JObj d)) ''_id'')"
  shows "map_of (mapDocumentToData (constructor name options)
                   (mapDataToDocument (constructor name options) (JObj d))) = map_of d
       \<and> distinct (map fst (mapDocumentToData (constructor name options)
                   (mapDataToDocument (constructor name options) (JObj d))))"
proof -
  let ?inst = "constructor name options"
  let ?renamed = "renameProps ?inst (JObj d)"
  have stored: "mapDataToDocument ?inst (JObj d) = ?renamed"
  proof (cases "isNullish (getProp ?renamed ''_id'')")
    case True
    with assms(3) have "''_id'' \<notin> fst ` set ?renamed" by (simp add: hasOwnProperty_def)
    then have "deleteProp ''_id'' ?renamed = ?renamed" by (rule deleteProp_absent)
    with True show ?thesis by (simp add: Let_def)
  next
    case False
    then show ?thesis by (simp add: Let_def)
  qed
  have dist: "distinct (map fst ?renamed)"
    using assms(1) by (simp add: renameProps_fold distinct_foldl_renameStep)
  have "map_of (mapDocumentToData ?inst ?renamed) = map_of d"
    using assms(1) distinct_fieldsPropsMap assms(2) by (rule roundtrip_fold)
  moreover have "distinct (map fst (mapDocumentToData ?inst ?renamed))"
    using dist by (simp add: mapDocumentToData_fold distinct_foldl_rename)
  ultimately show ?thesis by (simp only: stored)
qed

text \<open>C5 on the scenario: \<^verbatim>\<open>{ username: "ann", age: 30 }\<close> comes back with its two fields.\<close>

theorem toApplication_toStored_roundtrip_witness:
  "distinct (map fst [(''username'', VStr ''ann''), (''age'', VNum 30)])
   \<and> mapDocumentToData scenario
         (mapDataToDocument scenario (JObj [(''username'', VStr ''ann''), (''age'', VNum 30)]))
       = [(''age'', VNum 30), (''username'', VStr ''ann'')]
   \<and> map_of (mapDocumentToData scenario
         (mapDataToDocument scenario (JObj [(''username'', VStr ''ann''), (''age'', VNum 30)])))
       = map_of [(''username'', VStr ''ann''), (''age'', VNum 30)]"
proof -
  let ?d = "[(''username'', VStr ''ann''), (''age'', VNum 30)]"
  let ?options = "Some \<lparr> fieldsProps = Some [(''_id'', ''id''), (''usr_name'', ''username'')],
                          idFields = Some [Exact ''_id''] \<rparr>"
  have inst: "constructor ''users'' ?options = scenario" by (simp add: scenario_def)
  have r: "renameProps scenario (JObj ?d) = [(''age'', VNum 30), (''usr_name'', VStr ''ann'')]"
    by (simp add: eval_defs scenario_simps)
  have h1: "distinct (map fst ?d)" by simp
  have h2: "fst ` set (fieldsPropsMap (constructor ''users'' ?options)) \<inter> fst ` set ?d = {}"
    by (simp add: inst scenario_simps)
  have h3: "hasOwnProperty (renameProps (constructor ''users'' ?options) (JObj ?d)) ''_id''
           \<longrightarrow> \<not> isNullish (getProp (renameProps (constructor ''users'' ?options) (JObj ?d)) ''_id'')"
    by (simp add: inst r hasOwnProperty_def)
  have e: "mapDocumentToData scenario (mapDataToDocument scenario (JObj ?d))
             = [(''age'', VNum 30), (''username'', VStr ''ann'')]"
    by (simp add: r getProp_def deleteProp_def mapDocumentToData_def scenario_simps)
  from toApplication_toStored_roundtrip [OF h1 h2 h3, unfolded inst] h1 e show ?thesis
    by (simp only: simp_thms)
qed

text \<open>
  Claim C5 as stated fails for a document that uses a stored name as a key: under the
  scenario's rename table \<^verbatim>\<open>{ usr_name: "ann" }\<close> has no identifier field and no
  \<^verbatim>\<open>_id\<close>, is left as it is by \<^verbatim>\<open>mapDataToDocument\<close>, and comes back as
  \<^verbatim>\<open>{ username: "ann" }\<close>.
\<close>

theorem roundtrip_stored_name_counterexample:
  "\<not> hasOwnProperty [(''usr_name'', VStr ''ann'')] ''_id''
   \<and> parseStringsIDs scenario example_ObjectId [(''usr_name'', VStr ''ann'')]
       = Inr [(''usr_name'', VStr ''ann'')]
   \<and> mapDataToDocument scenario (JObj [(''usr_name'', VStr ''ann'')]) = [(''usr_name'', VStr ''ann'')]
   \<and> mapDocumentToData scenario (mapDataToDocument scenario (JObj [(''usr_name'', VStr ''ann'')]))
       = [(''username'', VStr ''ann'')]
   \<and> map_of (mapDocumentToData scenario (mapDataToDocument scenario (JObj [(''usr_name'', VStr ''ann'')])))
       \<noteq> map_of [(''usr_name'', VStr ''ann'')]"
proof -
  have s: "mapDataToDocument scenario (JObj [(''usr_name'', VStr ''ann'')]) = [(''usr_name'', VStr ''ann'')]"
    by (simp add: eval_defs scenario_simps)
  have a: "mapDocumentToData scenario [(''usr_name'', VStr ''ann'')] = [(''username'', VStr ''ann'')]"
    by (simp add: eval_defs scenario_simps)
  have p: "parseStringsIDs scenario example_ObjectId [(''usr_name'', VStr ''ann'')]
       = Inr [(''usr_name'', VStr ''ann'')]"
    by (simp add: eval_defs scenario_simps)
  have "map_of [(''username'', VStr ''ann'')] ''usr_name'' \<noteq> map_of [(''usr_name'', VStr ''ann'')] ''usr_name''"
    by simp
  then have "map_of [(''username'', VStr ''ann'')] \<noteq> map_of [(''usr_name'', VStr ''ann'')]"
    by metis
  with s a p show ?thesis by (simp add: hasOwnProperty_def del: mapDataToDocument.simps map_of.simps)
qed


end
